theory Spec2Isabelle
  imports Main "HOL-Library.AList"
begin

unbundle bit_operations_syntax

section \<open>Documents and paths\<close>

text \<open>
  The configuration document is what \<^verbatim>\<open>json.load\<close> returns: a tree of dicts, lists and
  scalars.  A dict is kept as an association list in insertion order; a lookup finds the
  first entry of a key and a store replaces that entry or appends a new one, as a Python
  dict does.  Floats are scalars like the others and the accessor never looks inside a
  scalar, so one numeric constructor stands for them.

  A Python string is a sequence of Unicode code points, and both \<^verbatim>\<open>str.isdigit\<close> and
  \<^verbatim>\<open>int\<close> look at code points beyond ASCII; so a string is the list of its code
  points.  \<open>str\<close> writes an ASCII literal as such a string.
\<close>

type_synonym pystr = "nat list"

definition str :: "string \<Rightarrow> pystr" where
  "str s = map of_char s"

datatype json =
    JNull
  | JBool bool
  | JInt int
  | JStr pystr
  | JList "json list"
  | JDict "(pystr \<times> json) list"

text \<open>
  The exceptions of \<^verbatim>\<open>main.py\<close>.  Every failure of the accessor is an
  \<^verbatim>\<open>HTTPException(status_code=400, detail=...)\<close>; the three message texts are the three
  kinds of path error: "invalid array index: <key>" (\<open>InvalidIndex\<close>), "path does not
  exist: <path>" (\<open>PathNotFound\<close>) and "cannot set a value at path: <path>"
  (\<open>InvalidTarget\<close>).  The remaining details belong to the process supervisor.
  \<^verbatim>\<open>int(key)\<close> can raise \<^verbatim>\<open>ValueError\<close>, which nothing in \<^verbatim>\<open>main.py\<close> catches.
\<close>

datatype detail =
    InvalidIndex nat
  | PathNotFound pystr
  | InvalidTarget pystr
  | ExecutableNotFound
  | ExecutableNotFoundOrNotExecutable
  | NoPermissionToExecute
  | LaunchFailed
  | OtherException string
  | StartError detail

datatype exn =
    HTTPException nat detail
  | ValueError
  | NoSuchProcess nat

text \<open>\<^verbatim>\<open>path.split('.')\<close>: every dot (code point 46) separates two pieces, empty pieces are kept, and the
  result is never the empty list.\<close>

fun split_dot :: "pystr \<Rightarrow> pystr list" where
  "split_dot [] = [[]]"
| "split_dot (c # cs) =
     (if c = 46 then [] # split_dot cs
      else (case split_dot cs of
              [] \<Rightarrow> [[c]]
            | w # ws \<Rightarrow> (c # w) # ws))"

text \<open>
  The character tables behind \<^verbatim>\<open>str.isdigit\<close> and \<^verbatim>\<open>int\<close>, as CPython 3.11 has
  them (Unicode 14).  The decimal digits of every script are ten consecutive code
  points, zero first; \<open>decimal_zeros\<close> lists the zeros, beginning with the ASCII one and
  the Arabic-Indic one (U+0660).  \<open>other_digits\<close> are the ranges of the characters that
  are digits without being decimal: the superscripts U+00B2, U+00B3 and U+00B9, the
  circled digits and their like.
\<close>

definition decimal_zeros :: "nat list" where
  "decimal_zeros =
    [48, 1632, 1776, 1984, 2406, 2534, 2662, 2790, 2918, 3046, 3174, 3302, 3430, 3558,
      3664, 3792, 3872, 4160, 4240, 6112, 6160, 6470, 6608, 6784, 6800, 6992, 7088, 7232,
      7248, 42528, 43216, 43264, 43472, 43504, 43600, 44016, 65296, 66720, 68912, 69734,
      69872, 69942, 70096, 70384, 70736, 70864, 71248, 71360, 71472, 71904, 72016, 72784,
      73040, 73120, 92768, 92864, 93008, 120782, 120792, 120802, 120812, 120822, 123200,
      123632, 125264, 130032]"

definition other_digits :: "(nat \<times> nat) list" where
  "other_digits =
    [(178, 179), (185, 185), (4969, 4977), (6618, 6618), (8304, 8304), (8308, 8313),
      (8320, 8329), (9312, 9320), (9332, 9340), (9352, 9360), (9450, 9450), (9461, 9469),
      (9471, 9471), (10102, 10110), (10112, 10120), (10122, 10130), (68160, 68163),
      (69216, 69224), (69714, 69722), (127232, 127242)]"

definition decimal_value :: "nat \<Rightarrow> nat option" where
  "decimal_value c =
     map_option (\<lambda>z. c - z) (List.find (\<lambda>z. z \<le> c \<and> c < z + 10) decimal_zeros)"

definition digit_char :: "nat \<Rightarrow> bool" where
  "digit_char c =
     (case decimal_value c of
        Some d \<Rightarrow> True
      | None \<Rightarrow> list_ex (\<lambda>(lo, hi). lo \<le> c \<and> c \<le> hi) other_digits)"

text \<open>\<^verbatim>\<open>str.isdigit\<close>: at least one character, and every character a digit, decimal or
  not.\<close>

definition isdigit :: "pystr \<Rightarrow> bool" where
  "isdigit key = (key \<noteq> [] \<and> list_all digit_char key)"

text \<open>
  \<^verbatim>\<open>int(key)\<close> on a string of digit characters.  It raises \<^verbatim>\<open>ValueError\<close> when the
  string has more characters than the conversion limit (4300 unless configured; leading
  zeros count) and when a character is not a decimal digit; otherwise the decimal
  values are read most significant first, digits of different scripts mixed freely.
\<close>

definition int_max_str_digits :: nat where
  "int_max_str_digits = 4300"

definition py_int :: "pystr \<Rightarrow> exn + nat" where
  "py_int key =
     (if key = [] \<or> int_max_str_digits < length key then Inl ValueError
      else
        (case those (map decimal_value key) of
           None \<Rightarrow> Inl ValueError
         | Some ds \<Rightarrow> Inr (foldl (\<lambda>n d. 10 * n + d) 0 ds)))"

text \<open>
  A reference into the tree is the list of steps that leads to it from the root.
\<close>

datatype step = Idx nat | Key pystr

text \<open>
  The body of both traversal loops: from the node \<open>current\<close> take the child that the
  segment \<open>key\<close> names, or raise.  The step taken is returned beside the child.
\<close>

definition descend :: "pystr \<Rightarrow> json \<Rightarrow> pystr \<Rightarrow> exn + (step \<times> json)" where
  "descend path current key =
     (if isdigit key then
        (case py_int key of
           Inl e \<Rightarrow> Inl e
         | Inr k \<Rightarrow>
             (case current of
                JList xs \<Rightarrow>
                  if k < length xs then Inr (Idx k, xs ! k)
                  else Inl (HTTPException 400 (InvalidIndex k))
              | _ \<Rightarrow> Inl (HTTPException 400 (InvalidIndex k))))
      else
        (case current of
           JDict kvs \<Rightarrow>
             (case map_of kvs key of
                Some c \<Rightarrow> Inr (Key key, c)
              | None \<Rightarrow> Inl (HTTPException 400 (PathNotFound path)))
         | _ \<Rightarrow> Inl (HTTPException 400 (PathNotFound path))))"

fun get_loop :: "pystr \<Rightarrow> json \<Rightarrow> pystr list \<Rightarrow> exn + json" where
  "get_loop path current [] = Inr current"
| "get_loop path current (key # keys) =
     (case descend path current key of
        Inl e \<Rightarrow> Inl e
      | Inr (s, c) \<Rightarrow> get_loop path c keys)"

definition get_nested_value :: "json \<Rightarrow> pystr \<Rightarrow> exn + json" where
  "get_nested_value data path = get_loop path data (split_dot path)"

text \<open>
  \<^verbatim>\<open>current[key] = value\<close> on the object itself, and its effect on the document when
  the object sits at the location \<open>loc\<close>: the containers on the way are the same objects
  as before, holding the mutated child.
\<close>

fun child :: "json \<Rightarrow> step \<Rightarrow> json option" where
  "child (JList xs) (Idx i) = (if i < length xs then Some (xs ! i) else None)"
| "child (JDict kvs) (Key k) = map_of kvs k"
| "child _ _ = None"

fun setitem :: "json \<Rightarrow> step \<Rightarrow> json \<Rightarrow> json" where
  "setitem (JList xs) (Idx i) v = JList (xs[i := v])"
| "setitem (JDict kvs) (Key k) v = JDict (AList.update k v kvs)"
| "setitem j _ _ = j"

fun setitem_at :: "json \<Rightarrow> step list \<Rightarrow> step \<Rightarrow> json \<Rightarrow> json" where
  "setitem_at doc [] s v = setitem doc s v"
| "setitem_at doc (t # loc) s v =
     (case child doc t of
        None \<Rightarrow> doc
      | Some c \<Rightarrow> setitem doc t (setitem_at c loc s v))"

text \<open>The loop of \<^verbatim>\<open>set_nested_value\<close> over \<^verbatim>\<open>keys[:-1]\<close>; it only reads.\<close>

fun set_loop :: "pystr \<Rightarrow> json \<Rightarrow> step list \<Rightarrow> pystr list \<Rightarrow> exn + (step list \<times> json)" where
  "set_loop path current loc [] = Inr (loc, current)"
| "set_loop path current loc (key # keys) =
     (case descend path current key of
        Inl e \<Rightarrow> Inl e
      | Inr (s, c) \<Rightarrow> set_loop path c (loc @ [s]) keys)"

text \<open>
  \<^verbatim>\<open>set_nested_value\<close> returns nothing and mutates \<open>data\<close>; the model returns the
  outcome together with the document as it is afterwards, also when an exception leaves
  the function.  The list \<open>keys\<close> is never empty, so \<^verbatim>\<open>keys[-1]\<close> is its last
  element and \<^verbatim>\<open>keys[:-1]\<close> the rest.
\<close>

definition set_nested_value :: "json \<Rightarrow> pystr \<Rightarrow> json \<Rightarrow> (exn + unit) \<times> json" where
  "set_nested_value data path val =
     (let keys = split_dot path in
      case set_loop path data [] (butlast keys) of
        Inl e \<Rightarrow> (Inl e, data)
      | Inr (loc, current) \<Rightarrow>
          (let last_key = last keys in
           if isdigit last_key then
             (case py_int last_key of
                Inl e \<Rightarrow> (Inl e, data)
              | Inr i \<Rightarrow>
                  (case current of
                     JList xs \<Rightarrow>
                       if i < length xs then (Inr (), setitem_at data loc (Idx i) val)
                       else (Inl (HTTPException 400 (InvalidIndex i)), data)
                   | _ \<Rightarrow> (Inl (HTTPException 400 (InvalidIndex i)), data)))
           else
             (case current of
                JDict kvs \<Rightarrow> (Inr (), setitem_at data loc (Key last_key) val)
              | _ \<Rightarrow> (Inl (HTTPException 400 (InvalidTarget path)), data))))"

text \<open>
  Vocabulary of the claims.  A scalar is a node that is neither a list nor a dict.  A
  segment names the step \<open>step_of\<close>: an index when it is all digits and \<^verbatim>\<open>int\<close> reads
  it, a field when it is not all digits, and no step when \<^verbatim>\<open>int\<close> refuses it.  Two
  paths diverge when, at the first position where their steps differ, both still have a
  segment: neither addresses the other's location, a container of it, or a part of it.
  \<open>decimal n\<close> is the number \<open>n\<close> written in ASCII decimal digits.
\<close>

fun is_scalar :: "json \<Rightarrow> bool" where
  "is_scalar (JList xs) = False"
| "is_scalar (JDict kvs) = False"
| "is_scalar j = True"

definition step_of :: "pystr \<Rightarrow> step option" where
  "step_of key =
     (if isdigit key then
        (case py_int key of
           Inl e \<Rightarrow> None
         | Inr n \<Rightarrow> Some (Idx n))
      else Some (Key key))"

fun diverges :: "pystr list \<Rightarrow> pystr list \<Rightarrow> bool" where
  "diverges (k # ks) (q # qs) = (if step_of k = step_of q then diverges ks qs else True)"
| "diverges ks qs = False"

fun decimal :: "nat \<Rightarrow> pystr" where
  "decimal n = (if n < 10 then [48 + n] else decimal (n div 10) @ [48 + n mod 10])"

declare decimal.simps [simp del]

section \<open>The process supervisor\<close>

text \<open>
  The host as the supervisor sees it: the processes \<^verbatim>\<open>psutil.process_iter\<close> yields, in
  its order, each with its pid and the name in \<^verbatim>\<open>proc.info\<close> (\<open>None\<close> when the name
  could not be read); whether the executable file exists; its permission bits.  The
  global \<^verbatim>\<open>zbproxy_process\<close> is the \<^verbatim>\<open>Popen\<close> object of the child: its pid, and
  what \<^verbatim>\<open>poll()\<close> returns in this state, \<open>None\<close> while the child runs and its exit
  status afterwards.  The scan and \<^verbatim>\<open>poll()\<close> are asked independently of each other: a
  child that has ended can leave its pid to another process of any name.  The log file
  handle is left out: no result and no decision of the supervisor depends on it.
  Process names are byte strings; lowering touches the letters A to Z only, which is all
  that can matter for finding the ASCII name of the executable in them.
\<close>

definition ZBPROXY_EXECUTABLE :: string where
  "ZBPROXY_EXECUTABLE = ''ZBProxy-linux-amd64-v1''"

record process =
  p_pid :: nat
  p_name :: "string option"

record popen =
  popen_pid :: nat
  poll :: "int option"

record system =
  zbproxy_process :: "popen option"
  process_iter :: "process list"
  executable_exists :: bool
  st_mode :: nat

definition lower_char :: "char \<Rightarrow> char" where
  "lower_char c =
     (case map_of (zip ''ABCDEFGHIJKLMNOPQRSTUVWXYZ'' ''abcdefghijklmnopqrstuvwxyz'') c of
        None \<Rightarrow> c
      | Some d \<Rightarrow> d)"

definition lower :: "string \<Rightarrow> string" where
  "lower s = map lower_char s"

fun starts_with :: "string \<Rightarrow> string \<Rightarrow> bool" where
  "starts_with [] s = True"
| "starts_with (c # cs) [] = False"
| "starts_with (c # cs) (d # ds) = (c = d \<and> starts_with cs ds)"

text \<open>\<^verbatim>\<open>needle in s\<close> on strings.\<close>

fun contains :: "string \<Rightarrow> string \<Rightarrow> bool" where
  "contains needle [] = (needle = [])"
| "contains needle (c # cs) = (starts_with needle (c # cs) \<or> contains needle cs)"

definition matches :: "process \<Rightarrow> bool" where
  "matches proc =
     (case p_name proc of
        None \<Rightarrow> False
      | Some n \<Rightarrow> n \<noteq> [] \<and> contains (lower ZBPROXY_EXECUTABLE) (lower n))"

definition find_zbproxy_process :: "system \<Rightarrow> process option" where
  "find_zbproxy_process sys = List.find matches (process_iter sys)"

text \<open>\<^verbatim>\<open>zbproxy_process and zbproxy_process.poll() is None\<close>\<close>

definition tracked_alive :: "system \<Rightarrow> bool" where
  "tracked_alive sys =
     (case zbproxy_process sys of
        None \<Rightarrow> False
      | Some p \<Rightarrow> poll p = None)"

text \<open>
  The dicts the endpoints return.  The message texts are: "ZBProxy is already running",
  "ZBProxy is already running (PID: n)", "ZBProxy started", "ZBProxy stopped (PID: ...)"
  with the pids that were stopped, "ZBProxy is not running" (from stop), "ZBProxy
  restarted", "restart failed: <message of start>", "ZBProxy is running", "ZBProxy is
  running (started externally)" and "ZBProxy is not running" (from status).  An absent
  key of the dict is \<open>None\<close>.
\<close>

datatype message =
    MsgAlreadyRunning
  | MsgAlreadyRunningPid nat
  | MsgStarted
  | MsgStopped "nat list"
  | MsgNotRunning
  | MsgRestarted
  | MsgRestartFailed message
  | MsgRunning
  | MsgRunningExternal
  | MsgStatusNotRunning

record response =
  success :: bool
  status :: "string option"
  message :: message
  pid :: "nat option"

fun is_already_running :: "message \<Rightarrow> bool" where
  "is_already_running MsgAlreadyRunning = True"
| "is_already_running (MsgAlreadyRunningPid n) = True"
| "is_already_running m = False"

definition get_status :: "system \<Rightarrow> (exn + response) \<times> system" where
  "get_status sys =
     (if tracked_alive sys then
        (Inr \<lparr>success = True, status = Some ''running'', message = MsgRunning,
              pid = map_option popen_pid (zbproxy_process sys)\<rparr>, sys)
      else
        (case find_zbproxy_process sys of
           Some proc \<Rightarrow>
             (Inr \<lparr>success = True, status = Some ''running'', message = MsgRunningExternal,
                   pid = Some (p_pid proc)\<rparr>,
              sys\<lparr>zbproxy_process := None\<rparr>)
         | None \<Rightarrow>
             (Inr \<lparr>success = True, status = Some ''stopped'', message = MsgStatusNotRunning,
                   pid = None\<rparr>,
              sys\<lparr>zbproxy_process := None\<rparr>)))"

text \<open>
  What the host answers when \<^verbatim>\<open>start_zbproxy\<close> opens the log file, spawns the child
  and looks at it again after one second: one of the three handled exception classes,
  or a child with its pid that is still running, or not, at the second look.
\<close>

datatype spawn_event =
    SpawnFileNotFoundError
  | SpawnPermissionError
  | SpawnException string
  | Spawned nat bool

text \<open>The permission repair: when no execute bit (octal 111) is set, \<^verbatim>\<open>chmod\<close> to
  the old bits or-ed with octal 755; an exception there is only printed.\<close>

definition ensure_executable :: "system \<Rightarrow> bool \<Rightarrow> system" where
  "ensure_executable sys chmod_ok =
     (if st_mode sys AND 73 = 0 \<and> chmod_ok then sys\<lparr>st_mode := st_mode sys OR 493\<rparr>
      else sys)"

definition start_zbproxy :: "system \<Rightarrow> bool \<Rightarrow> spawn_event \<Rightarrow> (exn + response) \<times> system" where
  "start_zbproxy sys chmod_ok ev =
     (if tracked_alive sys then
        (Inr \<lparr>success = False, status = None, message = MsgAlreadyRunning,
              pid = map_option popen_pid (zbproxy_process sys)\<rparr>, sys)
      else
        (case find_zbproxy_process sys of
           Some proc \<Rightarrow>
             (Inr \<lparr>success = False, status = None, message = MsgAlreadyRunningPid (p_pid proc),
                   pid = None\<rparr>, sys)
         | None \<Rightarrow>
             if \<not> executable_exists sys then (Inl (HTTPException 404 ExecutableNotFound), sys)
             else
               (let sys1 = ensure_executable sys chmod_ok in
                case ev of
                  SpawnFileNotFoundError \<Rightarrow>
                    (Inl (HTTPException 404 ExecutableNotFoundOrNotExecutable),
                     sys1\<lparr>zbproxy_process := None\<rparr>)
                | SpawnPermissionError \<Rightarrow>
                    (Inl (HTTPException 403 NoPermissionToExecute),
                     sys1\<lparr>zbproxy_process := None\<rparr>)
                | SpawnException m \<Rightarrow>
                    (Inl (HTTPException 500 (StartError (OtherException m))),
                     sys1\<lparr>zbproxy_process := None\<rparr>)
                | Spawned p still_running \<Rightarrow>
                    if still_running then
                      (Inr \<lparr>success = True, status = None, message = MsgStarted, pid = Some p\<rparr>,
                       sys1\<lparr>zbproxy_process := Some \<lparr>popen_pid = p, poll = None\<rparr>,
                            process_iter := process_iter sys1
                              @ [\<lparr>p_pid = p, p_name = Some ZBPROXY_EXECUTABLE\<rparr>]\<rparr>)
                    else
                      (Inl (HTTPException 500 (StartError LaunchFailed)),
                       sys1\<lparr>zbproxy_process := None\<rparr>))))"

text \<open>
  What the host answers in \<^verbatim>\<open>stop_zbproxy\<close>.  For the tracked child: it ended within
  the five seconds; or the wait timed out and \<^verbatim>\<open>kill\<close> and the second wait went
  through; or some call raised before the pid was recorded (the flag says whether the
  child is still running).  For the process found by the scan: it ended within the five
  seconds; or the wait timed out, or \<^verbatim>\<open>terminate\<close> raised \<^verbatim>\<open>AccessDenied\<close> (the
  flag says whether \<^verbatim>\<open>kill\<close> went through); or it had exited after the scan and
  \<^verbatim>\<open>terminate\<close> raised \<^verbatim>\<open>psutil.NoSuchProcess\<close>.
\<close>

datatype tracked_event =
    TrackedExited
  | TrackedKilledAfterTimeout
  | TrackedRaised bool

datatype external_event =
    ExtExited
  | ExtTimeoutExpired bool
  | ExtAccessDenied bool
  | ExtNoSuchProcess

definition remove_process :: "nat \<Rightarrow> system \<Rightarrow> system" where
  "remove_process p sys =
     sys\<lparr>process_iter := filter (\<lambda>proc. p_pid proc \<noteq> p) (process_iter sys)\<rparr>"

text \<open>The first half of \<^verbatim>\<open>stop_zbproxy\<close>: the child the supervisor started.  It
  returns the list \<^verbatim>\<open>stopped_processes\<close> so far.\<close>

definition stop_tracked :: "system \<Rightarrow> tracked_event \<Rightarrow> nat list \<times> system" where
  "stop_tracked sys tev =
     (case zbproxy_process sys of
        None \<Rightarrow> ([], sys)
      | Some p \<Rightarrow>
          if poll p = None then
            (case tev of
               TrackedExited \<Rightarrow>
                 ([popen_pid p], (remove_process (popen_pid p) sys)\<lparr>zbproxy_process := None\<rparr>)
             | TrackedKilledAfterTimeout \<Rightarrow>
                 ([popen_pid p], (remove_process (popen_pid p) sys)\<lparr>zbproxy_process := None\<rparr>)
             | TrackedRaised still_running \<Rightarrow>
                 ([], (if still_running then sys else remove_process (popen_pid p) sys)
                        \<lparr>zbproxy_process := None\<rparr>))
          else ([], sys))"

text \<open>The second half: the process the scan finds.  Only \<^verbatim>\<open>TimeoutExpired\<close> and
  \<^verbatim>\<open>AccessDenied\<close> are caught there.\<close>

definition stop_external :: "nat list \<Rightarrow> system \<Rightarrow> external_event \<Rightarrow> (exn + nat list) \<times> system" where
  "stop_external stopped_processes sys xev =
     (case find_zbproxy_process sys of
        None \<Rightarrow> (Inr stopped_processes, sys)
      | Some proc \<Rightarrow>
          (case xev of
             ExtExited \<Rightarrow>
               (Inr (stopped_processes @ [p_pid proc]), remove_process (p_pid proc) sys)
           | ExtTimeoutExpired kill_ok \<Rightarrow>
               if kill_ok then
                 (Inr (stopped_processes @ [p_pid proc]), remove_process (p_pid proc) sys)
               else (Inr stopped_processes, sys)
           | ExtAccessDenied kill_ok \<Rightarrow>
               if kill_ok then
                 (Inr (stopped_processes @ [p_pid proc]), remove_process (p_pid proc) sys)
               else (Inr stopped_processes, sys)
           | ExtNoSuchProcess \<Rightarrow>
               (Inl (NoSuchProcess (p_pid proc)), remove_process (p_pid proc) sys)))"

definition stop_zbproxy :: "system \<Rightarrow> tracked_event \<Rightarrow> external_event \<Rightarrow> (exn + response) \<times> system" where
  "stop_zbproxy sys tev xev =
     (case stop_tracked sys tev of
        (stopped0, sys1) \<Rightarrow>
          (case stop_external stopped0 sys1 xev of
             (Inl e, sys2) \<Rightarrow> (Inl e, sys2)
           | (Inr stopped_processes, sys2) \<Rightarrow>
               if stopped_processes \<noteq> [] then
                 (Inr \<lparr>success = True, status = None, message = MsgStopped stopped_processes,
                       pid = None\<rparr>, sys2)
               else
                 (Inr \<lparr>success = True, status = None, message = MsgNotRunning,
                       pid = None\<rparr>, sys2)))"

text \<open>\<^verbatim>\<open>restart_zbproxy\<close>: stop, two seconds of sleep, start.  The host is taken not to
  change during the sleep.\<close>

definition restart_zbproxy ::
  "system \<Rightarrow> tracked_event \<Rightarrow> external_event \<Rightarrow> bool \<Rightarrow> spawn_event \<Rightarrow> (exn + response) \<times> system" where
  "restart_zbproxy sys tev xev chmod_ok ev =
     (case stop_zbproxy sys tev xev of
        (Inl e, sys1) \<Rightarrow> (Inl e, sys1)
      | (Inr stop_result, sys1) \<Rightarrow>
          (case start_zbproxy sys1 chmod_ok ev of
             (Inl e, sys2) \<Rightarrow> (Inl e, sys2)
           | (Inr start_result, sys2) \<Rightarrow>
               if success start_result then
                 (Inr \<lparr>success = True, status = None, message = MsgRestarted,
                       pid = pid start_result\<rparr>, sys2)
               else
                 (Inr \<lparr>success = False, status = None,
                       message = MsgRestartFailed (message start_result), pid = None\<rparr>, sys2)))"

section \<open>Example states\<close>

text \<open>A host with nothing of the proxy running; the same host with a child of the
  supervisor (pid 4242) running; a host where a proxy (pid 777) was started by someone
  else; that host with a reference to a child (pid 4242) that was killed and whose pid
  now belongs to a shell; and the first two with the executable file removed.\<close>

definition host_idle :: system where
  "host_idle =
     \<lparr>zbproxy_process = None,
      process_iter = [\<lparr>p_pid = 1, p_name = Some ''systemd''\<rparr>],
      executable_exists = True, st_mode = 493\<rparr>"

definition host_owned :: system where
  "host_owned =
     \<lparr>zbproxy_process = Some \<lparr>popen_pid = 4242, poll = None\<rparr>,
      process_iter = [\<lparr>p_pid = 1, p_name = Some ''systemd''\<rparr>,
                      \<lparr>p_pid = 4242, p_name = Some ''ZBProxy-linux-amd64-v1''\<rparr>],
      executable_exists = True, st_mode = 493\<rparr>"

definition host_external :: system where
  "host_external =
     \<lparr>zbproxy_process = None,
      process_iter = [\<lparr>p_pid = 1, p_name = None\<rparr>,
                      \<lparr>p_pid = 777, p_name = Some ''ZBProxy-linux-amd64-v1''\<rparr>],
      executable_exists = True, st_mode = 493\<rparr>"

definition host_stale :: system where
  "host_stale =
     \<lparr>zbproxy_process = Some \<lparr>popen_pid = 4242, poll = Some (- 9)\<rparr>,
      process_iter = [\<lparr>p_pid = 1, p_name = None\<rparr>,
                      \<lparr>p_pid = 777, p_name = Some ''ZBProxy-linux-amd64-v1''\<rparr>,
                      \<lparr>p_pid = 4242, p_name = Some ''bash''\<rparr>],
      executable_exists = True, st_mode = 493\<rparr>"

definition host_idle_no_exe :: system where
  "host_idle_no_exe = host_idle\<lparr>executable_exists := False\<rparr>"

definition host_owned_no_exe :: system where
  "host_owned_no_exe = host_owned\<lparr>executable_exists := False\<rparr>"

definition doc_services :: json where
  "doc_services = JDict [(str ''Services'', JList [JDict [(str ''Listen'', JInt 25565)]])]"

definition doc_no_services :: json where
  "doc_no_services = JDict [(str ''Services'', JList [])]"

definition doc_level :: json where
  "doc_level = JDict [(str ''Log'', JDict [(str ''Level'', JStr (str ''info''))])]"

definition doc_log :: json where
  "doc_log =
     JDict [(str ''Log'', JDict [(str ''Level'', JStr (str ''info'')),
                                 (str ''File'', JStr (str ''out.log''))]),
            (str ''Services'', JList [])]"

section \<open>The traversal\<close>

text \<open>Below U+0660 the decimal digits are the ASCII ones, and below U+00B2 there is no
  other digit.\<close>

lemma decimal_value_ascii:
  "c < 1632 \<Longrightarrow> decimal_value c = (if 48 \<le> c \<and> c < 58 then Some (c - 48) else None)"
  by (simp add: decimal_value_def decimal_zeros_def)

lemma digit_char_ascii: "c < 178 \<Longrightarrow> digit_char c = (48 \<le> c \<and> c < 58)"
  by (simp add: digit_char_def decimal_value_ascii other_digits_def)

lemmas accessor_eval =
  set_nested_value_def get_nested_value_def descend_def isdigit_def py_int_def step_of_def
  str_def int_max_str_digits_def digit_char_ascii decimal_value_ascii

lemmas supervisor_eval =
  start_zbproxy_def stop_zbproxy_def stop_tracked_def stop_external_def restart_zbproxy_def
  get_status_def tracked_alive_def find_zbproxy_process_def matches_def
  ZBPROXY_EXECUTABLE_def lower_def lower_char_def remove_process_def ensure_executable_def

lemma split_dot_nonempty: "split_dot path \<noteq> []"
  by (induction path) (auto split: list.splits)

lemma keys_split: "split_dot path = butlast (split_dot path) @ [last (split_dot path)]"
  by (simp add: split_dot_nonempty)

lemma split_dot_no_dot: "46 \<notin> set k \<Longrightarrow> split_dot k = [k]"
  by (induction k) auto

text \<open>\<^verbatim>\<open>int\<close> reads a number written in ASCII decimal digits, with or without leading
  zeros, as that number.\<close>

lemma decimal_ascii: "list_all (\<lambda>c. 48 \<le> c \<and> c < 58) (decimal n)"
  by (induction n rule: decimal.induct) (subst decimal.simps, simp)

lemma decimal_nonempty: "decimal n \<noteq> []"
  by (subst decimal.simps) simp

lemma ascii_digits_isdigit:
  "list_all (\<lambda>c. 48 \<le> c \<and> c < 58) ks \<Longrightarrow> list_all digit_char ks"
  by (induction ks) (auto simp: digit_char_ascii)

lemma ascii_digits_values:
  "list_all (\<lambda>c. 48 \<le> c \<and> c < 58) ks \<Longrightarrow>
   those (map decimal_value ks) = Some (map (\<lambda>c. c - 48) ks)"
  by (induction ks) (auto simp: decimal_value_ascii)

lemma decimal_value_of:
  "foldl (\<lambda>n d. 10 * n + d) 0 (map (\<lambda>c. c - 48) (decimal n)) = n"
proof (induction n rule: decimal.induct)
  case (1 n)
  show ?case
  proof (cases "n < 10")
    case True
    then show ?thesis by (subst decimal.simps) simp
  next
    case False
    with 1 show ?thesis by (subst decimal.simps) simp
  qed
qed

lemma leading_zeros_value:
  "foldl (\<lambda>n d. 10 * n + d) 0 (map (\<lambda>c. c - 48) (replicate z 48 @ ks))
     = foldl (\<lambda>n d. 10 * n + d) (0::nat) (map (\<lambda>c. c - 48) ks)"
  by (induction z) auto

lemma zeros_decimal_ascii:
  "list_all (\<lambda>c. 48 \<le> c \<and> c < 58) (replicate z 48 @ decimal n)"
  using decimal_ascii [of n] by (auto simp: list_all_iff)

lemma isdigit_decimal: "isdigit (replicate z 48 @ decimal n)"
proof -
  have "list_all (\<lambda>c. 48 \<le> c \<and> c < 58) (replicate z 48 @ decimal n)"
    by (rule zeros_decimal_ascii)
  then show ?thesis
    by (simp add: isdigit_def decimal_nonempty ascii_digits_isdigit del: list_all_append)
qed

lemma py_int_decimal:
  assumes "length (replicate z 48 @ decimal n) \<le> int_max_str_digits"
  shows "py_int (replicate z 48 @ decimal n) = Inr n"
proof -
  let ?key = "replicate z 48 @ decimal n"
  have "list_all (\<lambda>c. 48 \<le> c \<and> c < 58) ?key"
    by (rule zeros_decimal_ascii)
  then have v: "those (map decimal_value ?key) = Some (map (\<lambda>c. c - 48) ?key)"
    by (rule ascii_digits_values)
  have ne: "?key \<noteq> []" by (simp add: decimal_nonempty)
  have le: "\<not> int_max_str_digits < length ?key" using assms by simp
  have "foldl (\<lambda>n d. 10 * n + d) 0 (map (\<lambda>c. c - 48) ?key) = n"
    by (simp only: leading_zeros_value decimal_value_of)
  then show ?thesis
    unfolding py_int_def using v ne le by (simp only: if_False option.case simp_thms)
qed

text \<open>A successful step takes the step its segment names and arrives at that child.\<close>

lemma descend_step:
  "descend path cur k = Inr (s, c) \<Longrightarrow> step_of k = Some s \<and> child cur s = Some c"
  by (auto simp: descend_def step_of_def
           split: if_splits json.splits option.splits sum.splits)

lemma descend_same_step:
  "descend path cur k = Inr (s, c) \<Longrightarrow> step_of q = step_of k \<Longrightarrow>
   descend path' cur q = Inr (s, c)"
  by (auto simp: descend_def step_of_def
           split: if_splits json.splits option.splits sum.splits)

lemma descend_setitem_same:
  "descend path cur k = Inr (s, c) \<Longrightarrow> descend path (setitem cur s c') k = Inr (s, c')"
  by (auto simp: descend_def update_conv'
           split: if_splits json.splits option.splits sum.splits)

lemma descend_setitem_other:
  "step_of q \<noteq> Some s \<Longrightarrow> descend path (setitem cur s v) q = descend path cur q"
  by (cases "(cur, s, v)" rule: setitem.cases)
     (auto simp: descend_def step_of_def update_conv'
           split: if_splits json.splits option.splits sum.splits)

text \<open>The location the loop has collected so far is only a prefix of its result.\<close>

lemma set_loop_acc:
  "set_loop path cur loc keys =
     (case set_loop path cur [] keys of
        Inl e \<Rightarrow> Inl e
      | Inr (ss, c) \<Rightarrow> Inr (loc @ ss, c))"
proof (induction keys arbitrary: cur loc)
  case Nil
  show ?case by simp
next
  case (Cons k ks)
  show ?case
  proof (cases "descend path cur k")
    case (Inl e)
    then show ?thesis by simp
  next
    case (Inr r)
    obtain s c where r: "r = (s, c)" by (cases r)
    show ?thesis
      using Inr r Cons.IH [of c "loc @ [s]"] Cons.IH [of c "[s]"]
      by (auto split: sum.splits)
  qed
qed

lemma set_loop_Cons:
  assumes "set_loop path cur [] (k # ks) = Inr (ss, c)"
  obtains t c1 ss' where "descend path cur k = Inr (t, c1)"
    and "set_loop path c1 [] ks = Inr (ss', c)" and "ss = t # ss'"
proof -
  from assms obtain t c1 where d: "descend path cur k = Inr (t, c1)"
    by (auto split: sum.splits)
  with assms have "set_loop path c1 [t] ks = Inr (ss, c)" by simp
  then obtain ss' where "set_loop path c1 [] ks = Inr (ss', c)" and "ss = t # ss'"
    using set_loop_acc [of path c1 "[t]" ks] by (auto split: sum.splits)
  with d that show ?thesis by blast
qed

lemma get_loop_append:
  "get_loop path cur (ks @ [k]) =
     (case get_loop path cur ks of
        Inl e \<Rightarrow> Inl e
      | Inr c \<Rightarrow> (case descend path c k of Inl e \<Rightarrow> Inl e | Inr (s, c') \<Rightarrow> Inr c'))"
  by (induction ks arbitrary: cur) (auto split: sum.splits)

text \<open>Both loops walk the same way: the reading loop ends where the writing loop does.\<close>

lemma set_loop_get_loop:
  "get_loop path cur ks =
     (case set_loop path cur [] ks of Inl e \<Rightarrow> Inl e | Inr (ss, c) \<Rightarrow> Inr c)"
proof (induction ks arbitrary: cur)
  case Nil
  show ?case by simp
next
  case (Cons k ks)
  show ?case
  proof (cases "descend path cur k")
    case (Inl e)
    then show ?thesis by simp
  next
    case (Inr r)
    obtain s c where r: "r = (s, c)" by (cases r)
    show ?thesis
      using Inr r Cons.IH [of c] set_loop_acc [of path c "[s]" ks]
      by (auto split: sum.splits)
  qed
qed

lemma get_nested_value_unfold:
  "get_nested_value data path =
     (case set_loop path data [] (butlast (split_dot path)) of
        Inl e \<Rightarrow> Inl e
      | Inr (ss, c) \<Rightarrow>
          (case descend path c (last (split_dot path)) of
             Inl e \<Rightarrow> Inl e
           | Inr (s, c') \<Rightarrow> Inr c'))"
proof -
  have "get_nested_value data path =
          get_loop path data (butlast (split_dot path) @ [last (split_dot path)])"
    unfolding get_nested_value_def using keys_split [of path] by simp
  then show ?thesis
    by (simp only: get_loop_append set_loop_get_loop [of path data "butlast (split_dot path)"])
       (auto split: sum.splits)
qed

text \<open>After the write, the path to the written container leads to its new content.\<close>

lemma get_loop_setitem_at:
  "set_loop path cur [] ks = Inr (ss, c) \<Longrightarrow>
   get_loop path (setitem_at cur ss s v) ks = Inr (setitem c s v)"
proof (induction ks arbitrary: cur ss)
  case Nil
  then show ?case by simp
next
  case (Cons k ks)
  from Cons.prems obtain t c1 ss' where d: "descend path cur k = Inr (t, c1)"
    and l: "set_loop path c1 [] ks = Inr (ss', c)" and ss: "ss = t # ss'"
    by (rule set_loop_Cons)
  from d have ch: "child cur t = Some c1" by (simp add: descend_step)
  have "descend path (setitem cur t (setitem_at c1 ss' s v)) k = Inr (t, setitem_at c1 ss' s v)"
    using d by (rule descend_setitem_same)
  then show ?case using ch ss Cons.IH [OF l] by simp
qed

lemma set_success_cases:
  assumes "set_nested_value data path v = (Inr (), data')"
  obtains ss c s where "set_loop path data [] (butlast (split_dot path)) = Inr (ss, c)"
    and "step_of (last (split_dot path)) = Some s"
    and "data' = setitem_at data ss s v"
    and "descend path (setitem c s v) (last (split_dot path)) = Inr (s, v)"
  using assms
  by (auto simp: set_nested_value_def Let_def step_of_def descend_def update_conv'
           split: sum.splits if_splits json.splits prod.splits)

lemma set_then_get:
  assumes "set_nested_value data path v = (Inr (), data')"
  shows "get_nested_value data' path = Inr v"
proof -
  let ?ks = "butlast (split_dot path)" and ?k = "last (split_dot path)"
  from assms obtain ss c s where l: "set_loop path data [] ?ks = Inr (ss, c)"
    and d': "data' = setitem_at data ss s v"
    and w: "descend path (setitem c s v) ?k = Inr (s, v)"
    by (rule set_success_cases)
  have "get_loop path data' ?ks = Inr (setitem c s v)"
    unfolding d' using l by (rule get_loop_setitem_at)
  then have "get_loop path data' (?ks @ [?k]) = Inr v"
    using w by (simp add: get_loop_append)
  then show ?thesis
    unfolding get_nested_value_def using keys_split [of path] by simp
qed

lemma get_success_set_success:
  assumes "get_nested_value data path = Inr x"
  shows "\<exists>data'. set_nested_value data path v = (Inr (), data')"
  using assms unfolding get_nested_value_unfold
  by (auto simp: set_nested_value_def Let_def descend_def
           split: sum.splits if_splits json.splits prod.splits option.splits)

text \<open>A path that leaves the written one at some step reads what it read before.\<close>

lemma frame_core:
  assumes "set_loop path cur [] ks = Inr (ss, c)" and "step_of k = Some s"
    and "diverges (ks @ [k]) qs"
  shows "get_loop path' (setitem_at cur ss s v) qs = get_loop path' cur qs"
  using assms
proof (induction ks arbitrary: cur ss qs)
  case Nil
  then obtain q qs' where qs: "qs = q # qs'" and ne: "step_of q \<noteq> Some s"
    by (cases qs) (auto split: if_splits)
  from Nil have "ss = []" by simp
  then show ?case using qs descend_setitem_other [OF ne] by simp
next
  case (Cons k0 ks)
  from Cons.prems(1) obtain t c1 ss' where d: "descend path cur k0 = Inr (t, c1)"
    and l: "set_loop path c1 [] ks = Inr (ss', c)" and ss: "ss = t # ss'"
    by (rule set_loop_Cons)
  from d have t: "step_of k0 = Some t" and ch: "child cur t = Some c1"
    by (simp_all add: descend_step)
  from Cons.prems obtain q qs' where qs: "qs = q # qs'" by (cases qs) auto
  let ?new = "setitem_at c1 ss' s v"
  have eq: "setitem_at cur ss s v = setitem cur t ?new" using ss ch by simp
  show ?case
  proof (cases "step_of q = step_of k0")
    case True
    with Cons.prems qs have dv: "diverges (ks @ [k]) qs'" by simp
    note k = Cons.prems(2)
    have a: "descend path' cur q = Inr (t, c1)"
      using d True descend_same_step by blast
    have "descend path (setitem cur t ?new) k0 = Inr (t, ?new)"
      using d by (rule descend_setitem_same)
    then have b: "descend path' (setitem cur t ?new) q = Inr (t, ?new)"
      using True descend_same_step by blast
    show ?thesis using eq qs a b Cons.IH [OF l k dv] by simp
  next
    case False
    then have "step_of q \<noteq> Some t" using t by simp
    then show ?thesis using eq qs descend_setitem_other by simp
  qed
qed

text \<open>A field that the node reached does not have stops the writing loop.\<close>

lemma set_loop_append:
  "set_loop path cur loc (ks @ ks') =
     (case set_loop path cur loc ks of
        Inl e \<Rightarrow> Inl e
      | Inr (ss, c) \<Rightarrow> set_loop path c ss ks')"
  by (induction ks arbitrary: cur loc) (auto split: sum.splits)

lemma descend_missing_field:
  "\<not> isdigit k \<Longrightarrow> child cur (Key k) = None \<Longrightarrow>
   descend path cur k = Inl (HTTPException 400 (PathNotFound path))"
  by (cases cur) (auto simp: descend_def split: option.splits)

lemma descend_missing_index:
  "isdigit k \<Longrightarrow> py_int k = Inr n \<Longrightarrow> child cur (Idx n) = None \<Longrightarrow>
   descend path cur k = Inl (HTTPException 400 (InvalidIndex n))"
  by (cases cur) (auto simp: descend_def split: if_splits)

lemma set_intermediate_fails:
  assumes sp: "split_dot path = ks @ k # rest" and rest: "rest \<noteq> []"
    and g: "get_loop path D ks = Inr cur"
    and d: "descend path cur k = Inl e"
  shows "set_nested_value D path v = (Inl e, D)"
proof -
  from sp rest have b: "butlast (split_dot path) = ks @ k # butlast rest"
    by (simp add: butlast_append)
  from g obtain ss where l: "set_loop path D [] ks = Inr (ss, cur)"
    by (auto simp: set_loop_get_loop [of path D ks] split: sum.splits)
  have "set_loop path D [] (butlast (split_dot path)) = Inl e"
    unfolding b set_loop_append using l d by simp
  then show ?thesis by (simp add: set_nested_value_def)
qed

section \<open>Claims about the accessor\<close>

text \<open>
  C1.  Write, then read.  When the path resolves in the document to a scalar, assigning
  any value through the same path succeeds, and resolving the path in the document as
  it is after the assignment returns the value assigned.
\<close>

theorem assign_then_resolve:
  assumes "get_nested_value D P = Inr x" and "is_scalar x"
  shows "\<exists>D'. set_nested_value D P v = (Inr (), D') \<and> get_nested_value D' P = Inr v"
proof -
  from assms(1) obtain D' where s: "set_nested_value D P v = (Inr (), D')"
    using get_success_set_success by blast
  then have "get_nested_value D' P = Inr v" by (rule set_then_get)
  with s show ?thesis by blast
qed

theorem assign_then_resolve_witness:
  "get_nested_value doc_services (str ''Services.0.Listen'') = Inr (JInt 25565)
   \<and> is_scalar (JInt 25565)
   \<and> set_nested_value doc_services (str ''Services.0.Listen'') (JInt 25566)
       = (Inr (), JDict [(str ''Services'', JList [JDict [(str ''Listen'', JInt 25566)]])])
   \<and> get_nested_value (JDict [(str ''Services'', JList [JDict [(str ''Listen'', JInt 25566)]])])
       (str ''Services.0.Listen'') = Inr (JInt 25566)"
  using assign_then_resolve [of doc_services "str ''Services.0.Listen''" "JInt 25565" "JInt 25566"]
  by (simp add: accessor_eval doc_services_def)

text \<open>
  C2.  On the document {"Services": [{"Listen": 25565}]} the path "Services.0.Listen"
  resolves to 25565; on {"Services": []} it fails with the invalid-index error.  In
  general, a segment of digits that \<^verbatim>\<open>int\<close> reads as the number k makes the traversal
  go on in element k of the current node when that node is a list longer than k, and
  fail with the invalid-index error otherwise; a segment of digits that \<^verbatim>\<open>int\<close> refuses
  ends the traversal with that \<^verbatim>\<open>ValueError\<close>.  So a step through a segment of digits
  always arrives at a list element whose index is in bounds.  The number read is the
  one written: the segment that is n in ASCII decimal digits, with any leading zeros,
  selects element n; the Arabic-Indic digit three selects element 3; superscript two
  is a digit that \<^verbatim>\<open>int\<close> refuses.
\<close>

theorem resolve_numeric_segment:
  "get_nested_value doc_services (str ''Services.0.Listen'') = Inr (JInt 25565)
   \<and> get_nested_value doc_no_services (str ''Services.0.Listen'')
       = Inl (HTTPException 400 (InvalidIndex 0))
   \<and> (isdigit key \<longrightarrow>
        get_loop path current (key # keys) =
          (case py_int key of
             Inl e \<Rightarrow> Inl e
           | Inr k \<Rightarrow>
               (case current of
                  JList xs \<Rightarrow>
                    if k < length xs then get_loop path (xs ! k) keys
                    else Inl (HTTPException 400 (InvalidIndex k))
                | _ \<Rightarrow> Inl (HTTPException 400 (InvalidIndex k)))))
   \<and> (isdigit key \<and> descend path current key = Inr (s, c) \<longrightarrow>
        (\<exists>xs k. current = JList xs \<and> k < length xs \<and> s = Idx k \<and> c = xs ! k))
   \<and> (length (replicate z 48 @ decimal n) \<le> 4300 \<longrightarrow>
        isdigit (replicate z 48 @ decimal n)
        \<and> get_loop path (JList ys) ((replicate z 48 @ decimal n) # keys) =
            (if n < length ys then get_loop path (ys ! n) keys
             else Inl (HTTPException 400 (InvalidIndex n))))
   \<and> isdigit [1635] \<and> py_int [1635] = Inr 3
   \<and> isdigit [178] \<and> py_int [178] = Inl ValueError"
proof (intro conjI impI)
  show "get_nested_value doc_services (str ''Services.0.Listen'') = Inr (JInt 25565)"
    by (simp add: accessor_eval doc_services_def)
  show "get_nested_value doc_no_services (str ''Services.0.Listen'')
       = Inl (HTTPException 400 (InvalidIndex 0))"
    by (simp add: accessor_eval doc_no_services_def)
next
  assume "isdigit key"
  then show "get_loop path current (key # keys) =
          (case py_int key of
             Inl e \<Rightarrow> Inl e
           | Inr k \<Rightarrow>
               (case current of
                  JList xs \<Rightarrow>
                    if k < length xs then get_loop path (xs ! k) keys
                    else Inl (HTTPException 400 (InvalidIndex k))
                | _ \<Rightarrow> Inl (HTTPException 400 (InvalidIndex k))))"
    by (simp add: descend_def split: json.splits sum.splits)
next
  assume "isdigit key \<and> descend path current key = Inr (s, c)"
  then show "\<exists>xs k. current = JList xs \<and> k < length xs \<and> s = Idx k \<and> c = xs ! k"
    by (auto simp: descend_def split: json.splits sum.splits if_splits)
next
  assume len: "length (replicate z 48 @ decimal n) \<le> 4300"
  show d: "isdigit (replicate z 48 @ decimal n)" by (rule isdigit_decimal)
  from len have "py_int (replicate z 48 @ decimal n) = Inr n"
    by (intro py_int_decimal) (simp add: int_max_str_digits_def)
  with d show "get_loop path (JList ys) ((replicate z 48 @ decimal n) # keys) =
            (if n < length ys then get_loop path (ys ! n) keys
             else Inl (HTTPException 400 (InvalidIndex n)))"
    by (simp add: descend_def)
next
  show "isdigit [1635]" and "isdigit [178]"
    by (simp_all add: isdigit_def digit_char_def decimal_value_def decimal_zeros_def
        other_digits_def)
  show "py_int [1635] = Inr 3" and "py_int [178] = Inl ValueError"
    by (simp_all add: py_int_def int_max_str_digits_def decimal_value_def decimal_zeros_def)
qed

theorem resolve_numeric_segment_witness:
  "isdigit (str ''10'')
   \<and> descend (str ''10'')
        (JList [JNull, JNull, JNull, JNull, JNull, JNull, JNull, JNull, JNull, JNull, JInt 7])
        (str ''10'') = Inr (Idx 10, JInt 7)
   \<and> get_loop (str ''10.Services'')
        (JList [JNull, JNull, JNull, JNull, JNull, JNull, JNull, JNull, JNull, JNull, JInt 7])
        [str ''10'', str ''Services''] = Inl (HTTPException 400 (PathNotFound (str ''10.Services'')))
   \<and> length (replicate (Suc (Suc 0)) 48 @ decimal 1) \<le> (4300::nat)
   \<and> replicate (Suc (Suc 0)) 48 @ decimal 1 = str ''001''
   \<and> get_loop (str ''001'') (JList [JNull, JInt 7]) [str ''001''] = Inr (JInt 7)
   \<and> replicate 0 48 @ decimal 10 = str ''10''
   \<and> get_loop (str ''10'') (JList [JNull, JInt 7]) [str ''10'']
        = Inl (HTTPException 400 (InvalidIndex 10))
   \<and> get_loop [178] (JList [JNull, JInt 7]) [[178]] = Inl ValueError"
  using resolve_numeric_segment
      [where key = "str ''10''" and path = "str ''10.Services''"
         and current = "JList [JNull, JNull, JNull, JNull, JNull, JNull, JNull, JNull, JNull,
                               JNull, JInt 7]"
         and keys = "[str ''Services'']" and s = "Idx 10" and c = "JInt 7"
         and z = "Suc (Suc 0)" and n = 1 and ys = "[JNull, JInt 7]"]
    resolve_numeric_segment
      [where key = "[178]" and path = "[178]" and current = "JList [JNull, JInt 7]"
         and keys = "[]" and z = 0 and n = 10 and ys = "[JNull, JInt 7]"]
  by (simp add: accessor_eval decimal.simps)

text \<open>
  C3, as the code has it.  On a dict, assigning through a path of one segment that is
  not a number stores the key: the entry is replaced when the key is present and added
  when it is absent; so "NewField" on {} succeeds.  When a segment before the last is
  missing in the node reached there, the assignment fails and the document stays as it
  was: with the path-not-found error when the segment is a field, so "A.B" on {} fails
  and creates nothing, and with the invalid-index error when the segment is an index.
\<close>

theorem assign_upsert:
  "(\<not> isdigit k \<and> 46 \<notin> set k \<longrightarrow>
      set_nested_value (JDict kvs) k v = (Inr (), JDict (AList.update k v kvs))
      \<and> map_of (AList.update k v kvs) = (map_of kvs)(k \<mapsto> v))
   \<and> set_nested_value (JDict []) (str ''NewField'') v
       = (Inr (), JDict [(str ''NewField'', v)])
   \<and> (split_dot path = ks @ a # rest \<and> rest \<noteq> [] \<and> get_loop path D ks = Inr cur
        \<and> \<not> isdigit a \<and> child cur (Key a) = None \<longrightarrow>
        set_nested_value D path v = (Inl (HTTPException 400 (PathNotFound path)), D))
   \<and> (split_dot path = ks @ a # rest \<and> rest \<noteq> [] \<and> get_loop path D ks = Inr cur
        \<and> isdigit a \<and> py_int a = Inr n \<and> child cur (Idx n) = None \<longrightarrow>
        set_nested_value D path v = (Inl (HTTPException 400 (InvalidIndex n)), D))
   \<and> set_nested_value (JDict []) (str ''A.B'') v
       = (Inl (HTTPException 400 (PathNotFound (str ''A.B''))), JDict [])"
proof (intro conjI impI)
  assume "\<not> isdigit k \<and> 46 \<notin> set k"
  then show "set_nested_value (JDict kvs) k v = (Inr (), JDict (AList.update k v kvs))"
    by (simp add: set_nested_value_def split_dot_no_dot)
  show "map_of (AList.update k v kvs) = (map_of kvs)(k \<mapsto> v)"
    by (rule update_conv')
next
  show "set_nested_value (JDict []) (str ''NewField'') v
       = (Inr (), JDict [(str ''NewField'', v)])"
    by (simp add: accessor_eval)
next
  assume a: "split_dot path = ks @ a # rest \<and> rest \<noteq> [] \<and> get_loop path D ks = Inr cur
        \<and> \<not> isdigit a \<and> child cur (Key a) = None"
  then have "descend path cur a = Inl (HTTPException 400 (PathNotFound path))"
    by (simp add: descend_missing_field)
  with a show "set_nested_value D path v = (Inl (HTTPException 400 (PathNotFound path)), D)"
    using set_intermediate_fails by blast
next
  assume a: "split_dot path = ks @ a # rest \<and> rest \<noteq> [] \<and> get_loop path D ks = Inr cur
        \<and> isdigit a \<and> py_int a = Inr n \<and> child cur (Idx n) = None"
  then have "descend path cur a = Inl (HTTPException 400 (InvalidIndex n))"
    by (simp add: descend_missing_index)
  with a show "set_nested_value D path v = (Inl (HTTPException 400 (InvalidIndex n)), D)"
    using set_intermediate_fails by blast
next
  show "set_nested_value (JDict []) (str ''A.B'') v
       = (Inl (HTTPException 400 (PathNotFound (str ''A.B''))), JDict [])"
    by (simp add: accessor_eval)
qed

theorem assign_upsert_witness:
  "\<not> isdigit (str ''Level'') \<and> 46 \<notin> set (str ''Level'')
   \<and> set_nested_value (JDict [(str ''Level'', JStr (str ''info''))]) (str ''Level'')
        (JStr (str ''debug''))
       = (Inr (), JDict [(str ''Level'', JStr (str ''debug''))])
   \<and> set_nested_value (JDict [(str ''Level'', JStr (str ''info''))]) (str ''File'')
        (JStr (str ''out.log''))
       = (Inr (), JDict [(str ''Level'', JStr (str ''info'')),
                         (str ''File'', JStr (str ''out.log''))])
   \<and> split_dot (str ''Log.Format.Time'') = [str ''Log''] @ str ''Format'' # [str ''Time'']
   \<and> get_loop (str ''Log.Format.Time'') doc_log [str ''Log'']
       = Inr (JDict [(str ''Level'', JStr (str ''info'')),
                     (str ''File'', JStr (str ''out.log''))])
   \<and> \<not> isdigit (str ''Format'')
   \<and> child (JDict [(str ''Level'', JStr (str ''info'')),
                    (str ''File'', JStr (str ''out.log''))]) (Key (str ''Format'')) = None
   \<and> set_nested_value doc_log (str ''Log.Format.Time'') JNull
       = (Inl (HTTPException 400 (PathNotFound (str ''Log.Format.Time''))), doc_log)
   \<and> split_dot (str ''Services.5.Listen'') = [str ''Services''] @ str ''5'' # [str ''Listen'']
   \<and> get_loop (str ''Services.5.Listen'') doc_log [str ''Services''] = Inr (JList [])
   \<and> isdigit (str ''5'') \<and> py_int (str ''5'') = Inr 5 \<and> child (JList []) (Idx 5) = None
   \<and> set_nested_value doc_log (str ''Services.5.Listen'') JNull
       = (Inl (HTTPException 400 (InvalidIndex 5)), doc_log)"
  using assign_upsert [where k = "str ''Level''" and kvs = "[(str ''Level'', JStr (str ''info''))]"
      and v = "JStr (str ''debug'')"]
    assign_upsert [where k = "str ''File''" and kvs = "[(str ''Level'', JStr (str ''info''))]"
      and v = "JStr (str ''out.log'')"]
    assign_upsert [where path = "str ''Log.Format.Time''" and ks = "[str ''Log'']"
      and a = "str ''Format''" and rest = "[str ''Time'']" and D = doc_log and v = JNull
      and cur = "JDict [(str ''Level'', JStr (str ''info'')),
                        (str ''File'', JStr (str ''out.log''))]"]
    assign_upsert [where path = "str ''Services.5.Listen''" and ks = "[str ''Services'']"
      and a = "str ''5''" and rest = "[str ''Listen'']" and D = doc_log and v = JNull
      and cur = "JList []" and n = 5]
  by (simp add: accessor_eval doc_log_def)

text \<open>
  The claim C3 as it was stated (every missing intermediate segment fails with the
  path-not-found error) fails when the missing segment is a number: "0.B" on {} and
  "Services.5.Listen" on {"Services": []} fail with the invalid-index error.
\<close>

theorem missing_index_counterexample:
  "set_nested_value (JDict []) (str ''0.B'') JNull
     = (Inl (HTTPException 400 (InvalidIndex 0)), JDict [])
   \<and> fst (set_nested_value (JDict []) (str ''0.B'') JNull)
       \<noteq> Inl (HTTPException 400 (PathNotFound (str ''0.B'')))
   \<and> set_nested_value doc_no_services (str ''Services.5.Listen'') JNull
       = (Inl (HTTPException 400 (InvalidIndex 5)), doc_no_services)
   \<and> fst (set_nested_value doc_no_services (str ''Services.5.Listen'') JNull)
       \<noteq> Inl (HTTPException 400 (PathNotFound (str ''Services.5.Listen'')))"
  by (simp add: accessor_eval doc_no_services_def)

text \<open>
  C4, as the code has it.  The empty path string splits into one segment, the empty
  field name.  Resolving it returns the value of the key "" when the root is a dict
  that has this key and fails with the path-not-found error otherwise; assigning
  through it stores the key "" when the root is a dict and fails with the
  invalid-target error only when the root is not a dict.
\<close>

theorem empty_path_is_empty_field:
  "split_dot [] = [[]]
   \<and> get_nested_value D [] =
       (case D of
          JDict kvs \<Rightarrow>
            (case map_of kvs [] of
               Some x \<Rightarrow> Inr x
             | None \<Rightarrow> Inl (HTTPException 400 (PathNotFound [])))
        | _ \<Rightarrow> Inl (HTTPException 400 (PathNotFound [])))
   \<and> set_nested_value D [] v =
       (case D of
          JDict kvs \<Rightarrow> (Inr (), JDict (AList.update [] v kvs))
        | _ \<Rightarrow> (Inl (HTTPException 400 (InvalidTarget [])), D))"
  by (simp add: accessor_eval split: json.splits option.splits)

text \<open>
  The claim C4 as it was stated (no segments, the root returned, the assignment
  refused) fails on the empty dict: resolving the empty path raises, and assigning
  through it succeeds and adds the key "".
\<close>

theorem empty_path_counterexample:
  "split_dot [] = [[]]
   \<and> get_nested_value (JDict []) [] = Inl (HTTPException 400 (PathNotFound []))
   \<and> get_nested_value (JDict []) [] \<noteq> Inr (JDict [])
   \<and> set_nested_value (JDict []) [] JNull = (Inr (), JDict [([], JNull)])
   \<and> fst (set_nested_value (JDict []) [] JNull) \<noteq> Inl (HTTPException 400 (InvalidTarget []))"
  by (simp add: accessor_eval)

text \<open>
  C5.  A successful assignment changes the addressed location only: every path that
  diverges from the assigned one resolves after the assignment to what it resolved to
  before, value or error.  Assigning "debug" through "Log.Level" on
  {"Log": {"Level": "info"}} gives {"Log": {"Level": "debug"}}.
\<close>

theorem assign_frame:
  "(set_nested_value D P v = (Inr (), D') \<and> diverges (split_dot P) (split_dot Q) \<longrightarrow>
      get_nested_value D' Q = get_nested_value D Q)
   \<and> set_nested_value doc_level (str ''Log.Level'') (JStr (str ''debug''))
       = (Inr (), JDict [(str ''Log'', JDict [(str ''Level'', JStr (str ''debug''))])])"
proof (intro conjI impI)
  assume a: "set_nested_value D P v = (Inr (), D') \<and> diverges (split_dot P) (split_dot Q)"
  let ?ks = "butlast (split_dot P)" and ?k = "last (split_dot P)"
  from a obtain ss c s where l: "set_loop P D [] ?ks = Inr (ss, c)"
    and s: "step_of ?k = Some s" and d': "D' = setitem_at D ss s v"
    by (blast elim: set_success_cases)
  from a have "diverges (?ks @ [?k]) (split_dot Q)"
    using keys_split [of P] by simp
  with l s show "get_nested_value D' Q = get_nested_value D Q"
    unfolding get_nested_value_def d' by (rule frame_core)
next
  show "set_nested_value doc_level (str ''Log.Level'') (JStr (str ''debug''))
       = (Inr (), JDict [(str ''Log'', JDict [(str ''Level'', JStr (str ''debug''))])])"
    by (simp add: accessor_eval doc_level_def)
qed

theorem assign_frame_witness:
  "set_nested_value doc_log (str ''Log.Level'') (JStr (str ''debug''))
     = (Inr (), JDict [(str ''Log'', JDict [(str ''Level'', JStr (str ''debug'')),
                                            (str ''File'', JStr (str ''out.log''))]),
                       (str ''Services'', JList [])])
   \<and> diverges (split_dot (str ''Log.Level'')) (split_dot (str ''Log.File''))
   \<and> get_nested_value
        (JDict [(str ''Log'', JDict [(str ''Level'', JStr (str ''debug'')),
                                     (str ''File'', JStr (str ''out.log''))]),
                (str ''Services'', JList [])]) (str ''Log.File'')
       = get_nested_value doc_log (str ''Log.File'')
   \<and> get_nested_value doc_log (str ''Log.File'') = Inr (JStr (str ''out.log''))"
  using assign_frame [of doc_log "str ''Log.Level''" "JStr (str ''debug'')"
      "JDict [(str ''Log'', JDict [(str ''Level'', JStr (str ''debug'')),
                                   (str ''File'', JStr (str ''out.log''))]),
              (str ''Services'', JList [])]" "str ''Log.File''"]
  by (simp add: accessor_eval doc_log_def)

text \<open>
  C10.  An assignment that raises leaves the document exactly as it was: the loop
  only reads, and the one store is made after the last check.
\<close>

theorem assign_failure_leaves_document:
  assumes "set_nested_value D P v = (Inl e, D')"
  shows "D' = D"
  using assms
  by (auto simp: set_nested_value_def Let_def
           split: sum.splits if_splits json.splits prod.splits)

theorem assign_failure_leaves_document_witness:
  "set_nested_value doc_services (str ''Services.7.Listen'') (JInt 1)
     = (Inl (HTTPException 400 (InvalidIndex 7)), doc_services)
   \<and> snd (set_nested_value doc_services (str ''Services.7.Listen'') (JInt 1)) = doc_services"
  using assign_failure_leaves_document
    [of doc_services "str ''Services.7.Listen''" "JInt 1" "HTTPException 400 (InvalidIndex 7)"
        doc_services]
  by (simp add: accessor_eval doc_services_def)

section \<open>Claims about the supervisor\<close>

lemma start_when_running:
  assumes "tracked_alive sys \<or> find_zbproxy_process sys \<noteq> None"
  shows "\<exists>r. start_zbproxy sys chmod_ok ev = (Inr r, sys) \<and> \<not> success r
           \<and> is_already_running (message r)"
  using assms by (auto simp: start_zbproxy_def split: option.splits)

lemma start_success_tracked:
  assumes "start_zbproxy sys chmod_ok ev = (Inr r, sys')" and "success r"
  shows "\<exists>p. pid r = Some p \<and> zbproxy_process sys' = Some \<lparr>popen_pid = p, poll = None\<rparr>
           \<and> tracked_alive sys'"
  using assms
  by (auto simp: start_zbproxy_def Let_def tracked_alive_def
           split: if_splits option.splits spawn_event.splits)

text \<open>
  C6.  When the tracked child is alive, or the scan finds a process of the
  executable's name, start returns success = False with an already-running message and
  leaves supervisor and host as they were: nothing is spawned and the tracked pid
  stays.  Hence, when a call of start succeeds, it returns the pid of the child it now
  tracks, and a second call right after it returns the already-running failure and
  changes nothing.
\<close>

theorem start_zbproxy_already_running:
  "(tracked_alive sys \<or> find_zbproxy_process sys \<noteq> None \<longrightarrow>
      (\<exists>r. start_zbproxy sys chmod_ok ev = (Inr r, sys) \<and> \<not> success r
           \<and> is_already_running (message r)))
   \<and> (start_zbproxy sys chmod_ok ev = (Inr r1, sys1) \<and> success r1 \<longrightarrow>
      (\<exists>p r2. pid r1 = Some p
           \<and> zbproxy_process sys1 = Some \<lparr>popen_pid = p, poll = None\<rparr>
           \<and> start_zbproxy sys1 chmod_ok2 ev2 = (Inr r2, sys1) \<and> \<not> success r2
           \<and> is_already_running (message r2)))"
proof (intro conjI impI)
  assume "tracked_alive sys \<or> find_zbproxy_process sys \<noteq> None"
  then show "\<exists>r. start_zbproxy sys chmod_ok ev = (Inr r, sys) \<and> \<not> success r
           \<and> is_already_running (message r)"
    by (rule start_when_running)
next
  assume a: "start_zbproxy sys chmod_ok ev = (Inr r1, sys1) \<and> success r1"
  then obtain p where p: "pid r1 = Some p"
      "zbproxy_process sys1 = Some \<lparr>popen_pid = p, poll = None\<rparr>"
    and alive: "tracked_alive sys1"
    using start_success_tracked by blast
  from alive obtain r2 where "start_zbproxy sys1 chmod_ok2 ev2 = (Inr r2, sys1)"
    "\<not> success r2" "is_already_running (message r2)"
    using start_when_running by blast
  with p show "\<exists>p r2. pid r1 = Some p
           \<and> zbproxy_process sys1 = Some \<lparr>popen_pid = p, poll = None\<rparr>
           \<and> start_zbproxy sys1 chmod_ok2 ev2 = (Inr r2, sys1) \<and> \<not> success r2
           \<and> is_already_running (message r2)"
    by blast
qed

theorem start_zbproxy_already_running_witness:
  "tracked_alive host_owned
   \<and> find_zbproxy_process host_external \<noteq> None
   \<and> start_zbproxy host_external True (Spawned 5000 True)
       = (Inr \<lparr>success = False, status = None, message = MsgAlreadyRunningPid 777,
               pid = None\<rparr>, host_external)
   \<and> start_zbproxy host_idle True (Spawned 4242 True)
       = (Inr \<lparr>success = True, status = None, message = MsgStarted, pid = Some 4242\<rparr>,
          host_owned)
   \<and> start_zbproxy host_owned True (Spawned 5000 True)
       = (Inr \<lparr>success = False, status = None, message = MsgAlreadyRunning,
               pid = Some 4242\<rparr>, host_owned)"
  using start_zbproxy_already_running
      [where sys = host_external and chmod_ok = True and ev = "Spawned 5000 True"]
    start_zbproxy_already_running
      [where sys = host_idle and chmod_ok = True and ev = "Spawned 4242 True"
         and ?r1.0 = "\<lparr>success = True, status = None, message = MsgStarted, pid = Some 4242\<rparr>"
         and ?sys1.0 = host_owned and ?chmod_ok2.0 = True and ?ev2.0 = "Spawned 5000 True"]
  by (simp add: supervisor_eval host_idle_def host_owned_def host_external_def)

text \<open>
  C7.  When no child is tracked, or \<^verbatim>\<open>poll()\<close> says that the tracked child has ended,
  and the scan finds a process of the executable's name, status reports "running" with
  the started-externally message and the pid of the process found, and clears the
  tracked reference; it does so whether or not start was ever called, and whether or
  not the pid of the ended child is in use again.
\<close>

theorem get_status_external:
  assumes "\<not> tracked_alive sys" and "find_zbproxy_process sys = Some proc"
  shows "get_status sys =
           (Inr \<lparr>success = True, status = Some ''running'', message = MsgRunningExternal,
                 pid = Some (p_pid proc)\<rparr>,
            sys\<lparr>zbproxy_process := None\<rparr>)
         \<and> matches proc \<and> proc \<in> set (process_iter sys)"
proof -
  from assms(2) have f: "List.find matches (process_iter sys) = Some proc"
    by (simp add: find_zbproxy_process_def)
  then have "matches proc" and "proc \<in> set (process_iter sys)"
    by (auto simp: find_Some_iff)
  moreover have "get_status sys =
           (Inr \<lparr>success = True, status = Some ''running'', message = MsgRunningExternal,
                 pid = Some (p_pid proc)\<rparr>,
            sys\<lparr>zbproxy_process := None\<rparr>)"
    using assms by (simp add: get_status_def)
  ultimately show ?thesis by simp
qed

theorem get_status_external_witness:
  "\<not> tracked_alive host_stale
   \<and> find_zbproxy_process host_stale
       = Some \<lparr>p_pid = 777, p_name = Some ''ZBProxy-linux-amd64-v1''\<rparr>
   \<and> get_status host_stale =
       (Inr \<lparr>success = True, status = Some ''running'', message = MsgRunningExternal,
             pid = Some 777\<rparr>, host_stale\<lparr>zbproxy_process := None\<rparr>)
   \<and> zbproxy_process host_stale = Some \<lparr>popen_pid = 4242, poll = Some (- 9)\<rparr>
   \<and> 4242 \<in> set (map p_pid (process_iter host_stale))
   \<and> get_status host_external =
       (Inr \<lparr>success = True, status = Some ''running'', message = MsgRunningExternal,
             pid = Some 777\<rparr>, host_external)"
  using get_status_external
      [of host_stale "\<lparr>p_pid = 777, p_name = Some ''ZBProxy-linux-amd64-v1''\<rparr>"]
  by (simp add: supervisor_eval host_stale_def host_external_def)

text \<open>
  C8.  stop is to return a success result in every state.  It does not when the
  process found by the scan has ended before \<^verbatim>\<open>terminate\<close> reaches it: the
  \<^verbatim>\<open>NoSuchProcess\<close> that is raised is not among the exceptions caught there and leaves
  the endpoint.
\<close>

theorem stop_zbproxy_external_vanished:
  "stop_zbproxy host_external TrackedExited ExtNoSuchProcess
   = (Inl (NoSuchProcess 777),
      \<lparr>zbproxy_process = None, process_iter = [\<lparr>p_pid = 1, p_name = None\<rparr>],
         executable_exists = True, st_mode = 493\<rparr>)"
  by (simp add: supervisor_eval host_external_def)

text \<open>
  In every other case stop returns success, with the "not running" message when
  nothing was running.
\<close>

lemma stop_zbproxy_succeeds_unless_vanished:
  assumes "xev \<noteq> ExtNoSuchProcess"
  shows "\<exists>r. fst (stop_zbproxy sys tev xev) = Inr r \<and> success r"
  using assms
  by (auto simp: stop_zbproxy_def stop_external_def
           split: prod.splits sum.splits option.splits external_event.splits if_splits)

lemma stop_zbproxy_nothing_running:
  assumes "\<not> tracked_alive sys" and "find_zbproxy_process sys = None"
  shows "stop_zbproxy sys tev xev =
           (Inr \<lparr>success = True, status = None, message = MsgNotRunning, pid = None\<rparr>, sys)"
  using assms
  by (auto simp: stop_zbproxy_def stop_external_def stop_tracked_def tracked_alive_def
           split: option.splits)

text \<open>
  C9, as the code has it.  When stop has returned and start then fails, restart
  reports the failure of start: an exception of start leaves restart unchanged (the
  404 of the missing executable among them), and a start that returns success = False
  makes restart return success = False with the restart-failed message around the
  message of start.  The result of stop is not part of either.
\<close>

theorem restart_zbproxy_start_fails:
  assumes "stop_zbproxy sys tev xev = (Inr stop_result, sys1)"
  shows "(start_zbproxy sys1 chmod_ok ev = (Inl e, sys2) \<longrightarrow>
            restart_zbproxy sys tev xev chmod_ok ev = (Inl e, sys2))
       \<and> (start_zbproxy sys1 chmod_ok ev = (Inr r, sys2) \<and> \<not> success r \<longrightarrow>
            restart_zbproxy sys tev xev chmod_ok ev =
              (Inr \<lparr>success = False, status = None, message = MsgRestartFailed (message r),
                    pid = None\<rparr>, sys2))
       \<and> (\<not> tracked_alive sys1 \<and> find_zbproxy_process sys1 = None
            \<and> \<not> executable_exists sys1 \<longrightarrow>
            restart_zbproxy sys tev xev chmod_ok ev =
              (Inl (HTTPException 404 ExecutableNotFound), sys1))"
  using assms by (simp add: restart_zbproxy_def start_zbproxy_def)

theorem restart_zbproxy_start_fails_witness:
  "stop_zbproxy host_owned_no_exe TrackedExited ExtExited
     = (Inr \<lparr>success = True, status = None, message = MsgStopped [4242], pid = None\<rparr>,
        host_idle_no_exe)
   \<and> start_zbproxy host_idle_no_exe True (Spawned 5000 True)
     = (Inl (HTTPException 404 ExecutableNotFound), host_idle_no_exe)
   \<and> \<not> tracked_alive host_idle_no_exe \<and> find_zbproxy_process host_idle_no_exe = None
   \<and> \<not> executable_exists host_idle_no_exe
   \<and> restart_zbproxy host_owned_no_exe TrackedExited ExtExited True (Spawned 5000 True)
     = (Inl (HTTPException 404 ExecutableNotFound), host_idle_no_exe)
   \<and> stop_zbproxy host_owned TrackedExited (ExtTimeoutExpired False)
     = (Inr \<lparr>success = True, status = None, message = MsgStopped [4242], pid = None\<rparr>,
        host_idle)
   \<and> restart_zbproxy host_stale TrackedExited (ExtTimeoutExpired False) True (Spawned 5000 True)
     = (Inr \<lparr>success = False, status = None,
             message = MsgRestartFailed (MsgAlreadyRunningPid 777), pid = None\<rparr>, host_stale)"
  using restart_zbproxy_start_fails
      [where sys = host_owned_no_exe and tev = TrackedExited and xev = ExtExited
         and stop_result = "\<lparr>success = True, status = None, message = MsgStopped [4242],
                              pid = None\<rparr>"
         and ?sys1.0 = host_idle_no_exe and chmod_ok = True and ev = "Spawned 5000 True"
         and e = "HTTPException 404 ExecutableNotFound" and ?sys2.0 = host_idle_no_exe]
  by (simp add: supervisor_eval host_owned_no_exe_def host_idle_no_exe_def host_owned_def
      host_idle_def host_stale_def)

text \<open>
  The claim C9 as it was stated fails: with the executable missing, restart gives the
  same 404 after stopping the child 4242 as after stopping nothing.
\<close>

theorem restart_zbproxy_discards_stop_result:
  "fst (stop_zbproxy host_owned_no_exe TrackedExited ExtExited)
     = Inr \<lparr>success = True, status = None, message = MsgStopped [4242], pid = None\<rparr>
   \<and> fst (stop_zbproxy host_idle_no_exe TrackedExited ExtExited)
     = Inr \<lparr>success = True, status = None, message = MsgNotRunning, pid = None\<rparr>
   \<and> fst (restart_zbproxy host_owned_no_exe TrackedExited ExtExited True (Spawned 5000 True))
     = Inl (HTTPException 404 ExecutableNotFound)
   \<and> fst (restart_zbproxy host_idle_no_exe TrackedExited ExtExited True (Spawned 5000 True))
     = Inl (HTTPException 404 ExecutableNotFound)"
  by (simp add: supervisor_eval host_owned_no_exe_def host_idle_no_exe_def host_owned_def
      host_idle_def)

end
